theory Spec2Isabelle
  imports Complex_Main "HOL-Library.Word" "HOL-Library.Sublist" "HOL-Library.Signed_Division"
begin

unbundle bit_operations_syntax

section \<open>Data model of package spectrum\<close>

text \<open>
  Go's \<open>int\<close> is the signed integer of 64 bits. The fields of \<open>Config\<close> are modelled as
  \<open>int\<close> and stand for 64-bit values; where the code computes with them, the model
  reduces the result to 64 bits (\<open>int64_wrap\<close>) wherever a 64-bit operand can carry it out
  of the range: the product \<open>Width*Height*4\<close> that \<open>renderFrame\<close> passes to \<open>Grow\<close>, and
  \<open>midline-height\<close> and \<open>midline+height\<close>. Two expressions are left as they are:
  \<open>midline-1\<close>, which a 64-bit \<open>Height\<close> keeps in range, and \<open>ChunkSize*2\<close>, which leaves the
  range only for a \<open>ChunkSize\<close> of \<open>2^62\<close> or more, a chunk that no \<open>make\<close> can serve. Indices
  into slices and slice lengths are \<open>nat\<close>. Running out of memory is outside the model: a
  slice or builder of a non-negative length is taken to be allocated.

  \<open>float64\<close> is modelled as \<open>real\<close>; rounding, infinities and NaN are not represented.
  A Go \<open>string\<close> is a byte sequence, here \<open>string\<close>. The mutex \<open>mu\<close> holds no data and
  the model is sequential, so it has no field.
\<close>

definition int64_wrap :: "int \<Rightarrow> int" where
  "int64_wrap x = (x + 2 ^ 63) mod 2 ^ 64 - 2 ^ 63"

datatype panic =
    MakeSliceLen        \<comment> \<open>\<open>make\<close> with a negative length\<close>
  | IntegerDivideByZero
  | IndexOutOfRange
  | NilFuncCall
  | GrowNegativeCount   \<comment> \<open>\<open>strings.Builder.Grow\<close> with a negative count\<close>

record Config =
  Width :: int
  Height :: int
  SampleRate :: int
  ChunkSize :: int
  FPS :: int
  SmoothFactor :: real
  Char_str :: string
  BarSpacing :: int
  Amplify :: real
  ShowStatus :: bool

definition DefaultConfig :: Config where
  "DefaultConfig =
     \<lparr> Width = 60, Height = 12, SampleRate = 44100, ChunkSize = 1024, FPS = 30,
       SmoothFactor = 9 / 10, Char_str = ''|'', BarSpacing = 1, Amplify = 5 / 2,
       ShowStatus = True \<rparr>"

record TrackInfo =
  Title :: string
  Artist :: string
  Raw :: string

text \<open>
  A \<open>context.CancelFunc\<close> is an opaque handle; \<open>None\<close> is Go's \<open>nil\<close> function value,
  which is what the field holds until a start operation stores one.
\<close>

datatype CancelFunc = CancelFunc

record Visualizer =
  config :: Config
  waveform :: "real list"
  smoothed :: "real list"
  track :: TrackInfo
  streamURL :: string
  cancel :: "CancelFunc option"
  running :: bool

text \<open>\<open>make([]float64, n)\<close>: \<open>n\<close> zeros, a run-time panic when \<open>n\<close> is negative.\<close>

definition make_float64 :: "int \<Rightarrow> panic + real list" where
  "make_float64 n = (if n < 0 then Inl MakeSliceLen else Inr (replicate (nat n) 0))"

subsection \<open>New\<close>

definition backfill :: "Config \<Rightarrow> Config" where
  "backfill cfg0 =
     (let cfg = (if Width cfg0 = 0 then cfg0\<lparr>Width := 60\<rparr> else cfg0);
          cfg = (if Height cfg = 0 then cfg\<lparr>Height := 12\<rparr> else cfg);
          cfg = (if SampleRate cfg = 0 then cfg\<lparr>SampleRate := 44100\<rparr> else cfg);
          cfg = (if ChunkSize cfg = 0 then cfg\<lparr>ChunkSize := 1024\<rparr> else cfg);
          cfg = (if FPS cfg = 0 then cfg\<lparr>FPS := 30\<rparr> else cfg);
          cfg = (if Char_str cfg = [] then cfg\<lparr>Char_str := ''|''\<rparr> else cfg);
          cfg = (if BarSpacing cfg = 0 then cfg\<lparr>BarSpacing := 1\<rparr> else cfg);
          cfg = (if Amplify cfg = 0 then cfg\<lparr>Amplify := 5 / 2\<rparr> else cfg)
      in cfg)"

definition New :: "Config \<Rightarrow> panic + Visualizer" where
  "New cfg0 =
     (let cfg = backfill cfg0 in
      case make_float64 (Width cfg) of
        Inl p \<Rightarrow> Inl p
      | Inr zeros \<Rightarrow>
          Inr \<lparr> config = cfg, waveform = zeros, smoothed = zeros,
                track = \<lparr> Title = [], Artist = [], Raw = [] \<rparr>,
                streamURL = [], cancel = None, running = False \<rparr>)"

subsection \<open>Stop and IsRunning\<close>

text \<open>Calling a function value: a \<open>nil\<close> one panics. The result says the call was made.\<close>

definition call_cancel :: "CancelFunc option \<Rightarrow> panic + bool" where
  "call_cancel f = (case f of None \<Rightarrow> Inl NilFuncCall | Some _ \<Rightarrow> Inr True)"

text \<open>
  \<open>Stop\<close> returns the visualizer together with a flag telling whether the cancellation
  handle was invoked (the only effect of \<open>Stop\<close> outside the struct).
\<close>

definition Stop :: "Visualizer \<Rightarrow> panic + (bool \<times> Visualizer)" where
  "Stop v =
     (if cancel v \<noteq> None then
        (case call_cancel (cancel v) of
           Inl p \<Rightarrow> Inl p
         | Inr c \<Rightarrow> Inr (c, v\<lparr>running := False\<rparr>))
      else Inr (False, v\<lparr>running := False\<rparr>))"

definition IsRunning :: "Visualizer \<Rightarrow> bool" where
  "IsRunning v = running v"

subsection \<open>Sample Demuxer (the first inner loop of processStream)\<close>

text \<open>
  \<open>buffer[i] = int16(rawBuffer[i*2]) | int16(rawBuffer[i*2+1])<<8\<close>: a byte converts to
  \<open>int16\<close> by zero extension, and the shift is taken in 16 bits.
\<close>

definition demux_sample :: "8 word list \<Rightarrow> nat \<Rightarrow> 16 word" where
  "demux_sample rawBuffer i =
     (ucast (rawBuffer ! (i * 2)) :: 16 word) OR push_bit 8 (ucast (rawBuffer ! (i * 2 + 1)) :: 16 word)"

definition demux :: "nat \<Rightarrow> 8 word list \<Rightarrow> 16 word list" where
  "demux chunkSize rawBuffer = map (demux_sample rawBuffer) [0..<chunkSize]"

subsection \<open>convertToWaveform\<close>

text \<open>The bounds \<open>start\<close> and \<open>end\<close> of column \<open>col\<close>, as the loop body computes them.\<close>

definition column_range :: "nat \<Rightarrow> nat \<Rightarrow> nat \<Rightarrow> nat \<times> nat" where
  "column_range len_buffer samplesPerColumn col =
     (let start = col * samplesPerColumn;
          stop = min (start + samplesPerColumn) len_buffer
      in (start, stop))"

text \<open>The inner loop: \<open>sum += value * value\<close> for \<open>i\<close> from \<open>start\<close> below \<open>end\<close>.\<close>

definition column_sum :: "16 word list \<Rightarrow> nat \<Rightarrow> nat \<Rightarrow> real" where
  "column_sum buffer start stop =
     foldl (\<lambda>sum i. let val = real_of_int (sint (buffer ! i)) / 32768 in sum + val * val)
       0 [start..<stop]"

definition convert_column :: "16 word list \<Rightarrow> nat \<Rightarrow> real list \<Rightarrow> nat \<Rightarrow> real list" where
  "convert_column buffer samplesPerColumn wave col =
     (let (start, stop) = column_range (length buffer) samplesPerColumn col;
          sum = column_sum buffer start stop
      in if samplesPerColumn > 0 then wave[col := sqrt (sum / real samplesPerColumn)] else wave)"

text \<open>
  The function writes into the slice it is given; the model returns the slice after the
  call. \<open>len(buffer) / len(waveform)\<close> panics when the waveform is empty.
\<close>

definition convertToWaveform :: "16 word list \<Rightarrow> real list \<Rightarrow> panic + real list" where
  "convertToWaveform buffer wave =
     (if length wave = 0 then Inl IntegerDivideByZero
      else
        let samplesPerColumn = length buffer div length wave
        in Inr (foldl (convert_column buffer samplesPerColumn) wave [0..<length wave]))"

subsection \<open>The smoothing update (the loop under the lock in processStream)\<close>

definition smooth_elem :: "real \<Rightarrow> real list \<Rightarrow> real list \<Rightarrow> nat \<Rightarrow> real list" where
  "smooth_elem alpha wave sm i = sm[i := sm ! i * (1 - alpha) + wave ! i * alpha]"

text \<open>
  \<open>for i := range waveform\<close> indexes \<open>v.smoothed\<close> with every index of \<open>waveform\<close>, so a
  shorter \<open>smoothed\<close> is an index panic. The elements written before such a panic are
  not represented: the result is the panic alone. \<open>New\<close> and \<open>processStream\<close> give both
  slices the length \<open>Width\<close>, so the loop never gets there.
\<close>

definition smooth :: "real \<Rightarrow> real list \<Rightarrow> real list \<Rightarrow> panic + real list" where
  "smooth alpha sm wave =
     (if length sm < length wave then Inl IndexOutOfRange
      else Inr (foldl (smooth_elem alpha wave) sm [0..<length wave]))"

subsection \<open>renderFrame\<close>

text \<open>
  Conversion of a \<open>float64\<close> to \<open>int\<close> discards the fraction (truncation toward zero).
  When the truncated value is not a 64-bit integer, the language leaves the result to the
  implementation; the model takes the result of the amd64 compiler, the smallest \<open>int\<close>
  (arm64 saturates instead). No theorem below that has the product in range depends on
  this choice.
\<close>

definition float_to_int :: "real \<Rightarrow> int" where
  "float_to_int x =
     (let t = (if x \<ge> 0 then \<lfloor>x\<rfloor> else \<lceil>x\<rceil>)
      in if - (2 ^ 63) \<le> t \<and> t < 2 ^ 63 then t else - (2 ^ 63))"

text \<open>The verb \<open>%d\<close> of \<open>fmt.Sprintf\<close>.\<close>

definition digit_char :: "nat \<Rightarrow> char" where
  "digit_char d = char_of (48 + d)"

fun nat_decimal :: "nat \<Rightarrow> string" where
  "nat_decimal n = (if n < 10 then [digit_char n] else nat_decimal (n div 10) @ [digit_char (n mod 10)])"

declare nat_decimal.simps [simp del]

definition fmt_d :: "int \<Rightarrow> string" where
  "fmt_d i = (if i < 0 then CHR ''-'' # nat_decimal (nat (- i)) else nat_decimal (nat i))"

definition newline :: char where
  "newline = CHR 0x0A"

definition ESC :: char where
  "ESC = CHR 0x1B"

definition cursor_prefix :: string where
  "cursor_prefix = (ESC # ''[2;0H'') @ (ESC # ''[?25l'')"

definition status_line :: "Config \<Rightarrow> string" where
  "status_line cfg =
     ''Audio Visualizer | '' @ fmt_d (SampleRate cfg) @ ''Hz | '' @ fmt_d (ChunkSize cfg)
       @ '' samples | '' @ fmt_d (FPS cfg) @ '' FPS'' @ [newline]"

text \<open>
  \<open>height := int(waveform[waveIdx] * Amplify * float64(midline-1))\<close>, then
  \<open>height = min(height, midline-1)\<close>.
\<close>

definition bar_height :: "Config \<Rightarrow> int \<Rightarrow> real \<Rightarrow> int" where
  "bar_height cfg midline val =
     (let height = float_to_int (val * Amplify cfg * real_of_int (midline - 1))
      in min height (midline - 1))"

text \<open>
  Whether the cell at \<open>row\<close>, \<open>col\<close> takes the branch that writes the glyph. Go's \<open>%\<close> and
  \<open>/\<close> truncate toward zero (\<open>smod\<close>, \<open>sdiv\<close>).
\<close>

definition draws_glyph :: "Config \<Rightarrow> real list \<Rightarrow> int \<Rightarrow> int \<Rightarrow> int \<Rightarrow> bool" where
  "draws_glyph cfg wave midline row col =
     (if BarSpacing cfg > 1 \<and> col smod BarSpacing cfg \<noteq> 0 then False
      else
        let waveIdx = (if BarSpacing cfg > 1 then col sdiv BarSpacing cfg else col)
        in if waveIdx \<ge> int (length wave) then False
           else
             let height = bar_height cfg midline (wave ! nat waveIdx)
             in row \<ge> int64_wrap (midline - height) \<and> row \<le> int64_wrap (midline + height)
                  \<and> height > 0)"

definition render_cell :: "Config \<Rightarrow> real list \<Rightarrow> int \<Rightarrow> int \<Rightarrow> string \<Rightarrow> int \<Rightarrow> string" where
  "render_cell cfg wave midline row sb col =
     (if draws_glyph cfg wave midline row col then sb @ Char_str cfg else sb @ '' '')"

definition render_row :: "Config \<Rightarrow> real list \<Rightarrow> int \<Rightarrow> string \<Rightarrow> int \<Rightarrow> string" where
  "render_row cfg wave midline sb row =
     foldl (render_cell cfg wave midline row) sb [0..Width cfg - 1] @ [newline]"

text \<open>
  The argument of \<open>sb.Grow\<close>: \<open>Width * Height\<close> in 64 bits, times 4 in 64 bits. \<open>Grow\<close> panics
  on a negative count.
\<close>

definition grow_count :: "Config \<Rightarrow> int" where
  "grow_count cfg = int64_wrap (int64_wrap (Width cfg * Height cfg) * 4)"

definition renderFrame :: "Config \<Rightarrow> real list \<Rightarrow> panic + string" where
  "renderFrame cfg wave =
     (if grow_count cfg < 0 then Inl GrowNegativeCount
      else
        let sb = cursor_prefix;
            midline = Height cfg sdiv 2;
            sb = foldl (render_row cfg wave midline) sb [0..Height cfg - 1];
            sb = (if ShowStatus cfg then sb @ status_line cfg else sb)
        in Inr sb)"

definition Render :: "Visualizer \<Rightarrow> panic + string" where
  "Render v = renderFrame (config v) (smoothed v)"

subsection \<open>processStream\<close>

text \<open>
  The loop talks to its surroundings twice per iteration: the \<open>select\<close> on
  \<open>ctx.Done()\<close> and the call of \<open>io.ReadFull\<close>. An \<open>iteration\<close> records what one pass
  of the loop observes there: the error of the context when it is done, and the pair
  \<open>(n, err)\<close> of the read, \<open>n\<close> being the number of bytes delivered. The loop is run
  against a finite script of iterations; when the script ends with the loop still going,
  the exit is \<open>None\<close>. Pacing (\<open>time.Sleep\<close>) has no effect on the state and is left out.
\<close>

datatype ctx_error = Canceled | DeadlineExceeded

datatype io_error = EOF | ErrUnexpectedEOF | OtherError nat

datatype error = ContextError ctx_error | ReadError io_error

datatype exit = Return error | Panic panic

record iteration =
  ctx_done :: "ctx_error option"
  read_bytes :: "8 word list"
  read_err :: "io_error option"

record loop_result =
  exit :: "exit option"
  vis :: Visualizer
  printed :: "string list"

text \<open>
  The loop proper. \<open>len_raw\<close> is \<open>len(rawBuffer)\<close>, \<open>wave\<close> the local slice
  \<open>waveform\<close>, which lives across iterations, and \<open>out\<close> the frames printed so far.
\<close>

fun stream_loop :: "nat \<Rightarrow> Visualizer \<Rightarrow> real list \<Rightarrow> string list \<Rightarrow> iteration list \<Rightarrow> loop_result" where
  "stream_loop len_raw v wave out [] = \<lparr> exit = None, vis = v, printed = out \<rparr>"
| "stream_loop len_raw v wave out (it # its) =
     (case ctx_done it of
        Some e \<Rightarrow> \<lparr> exit = Some (Return (ContextError e)), vis = v\<lparr>running := False\<rparr>, printed = out \<rparr>
      | None \<Rightarrow>
          (case read_err it of
             Some err \<Rightarrow>
               if err = EOF \<or> err = ErrUnexpectedEOF then stream_loop len_raw v wave out its
               else \<lparr> exit = Some (Return (ReadError err)), vis = v, printed = out \<rparr>
           | None \<Rightarrow>
               if length (read_bytes it) < len_raw then stream_loop len_raw v wave out its
               else
                 let rawBuffer = take len_raw (read_bytes it);
                     buffer = demux (nat (ChunkSize (config v))) rawBuffer
                 in (case convertToWaveform buffer wave of
                       Inl p \<Rightarrow> \<lparr> exit = Some (Panic p), vis = v, printed = out \<rparr>
                     | Inr wave' \<Rightarrow>
                         (case smooth (SmoothFactor (config v)) (smoothed v) wave' of
                            Inl p \<Rightarrow> \<lparr> exit = Some (Panic p), vis = v, printed = out \<rparr>
                          | Inr sm \<Rightarrow>
                              let v' = v\<lparr>smoothed := sm\<rparr>
                              in (case Render v' of
                                    Inl p \<Rightarrow> \<lparr> exit = Some (Panic p), vis = v', printed = out \<rparr>
                                  | Inr frame \<Rightarrow> stream_loop len_raw v' wave' (out @ [frame]) its)))))"

text \<open>
  The allocations before the loop: \<open>make\<close> panics on a negative length, and
  \<open>time.Second / time.Duration(FPS)\<close> on a zero frame rate.
\<close>

definition processStream :: "Visualizer \<Rightarrow> iteration list \<Rightarrow> loop_result" where
  "processStream v its =
     (if ChunkSize (config v) * 2 < 0 \<or> ChunkSize (config v) < 0 then
        \<lparr> exit = Some (Panic MakeSliceLen), vis = v, printed = [] \<rparr>
      else
        case make_float64 (Width (config v)) of
          Inl p \<Rightarrow> \<lparr> exit = Some (Panic p), vis = v, printed = [] \<rparr>
        | Inr wave \<Rightarrow>
            if FPS (config v) = 0 then
              \<lparr> exit = Some (Panic IntegerDivideByZero), vis = v, printed = [] \<rparr>
            else stream_loop (nat (ChunkSize (config v) * 2)) v wave [] its)"

definition StartFromReader :: "Visualizer \<Rightarrow> iteration list \<Rightarrow> loop_result" where
  "StartFromReader v its = processStream (v\<lparr>cancel := Some CancelFunc, running := True\<rparr>) its"

subsection \<open>FetchTrack\<close>

text \<open>
  \<open>strings.Index\<close>: the position of the first instance of \<open>sep\<close> in \<open>s\<close>, and
  \<open>strings.SplitN(s, sep, 2)\<close> for a non-empty \<open>sep\<close>: the text before and after that
  instance, or \<open>s\<close> alone when there is none.
\<close>

fun Index :: "string \<Rightarrow> string \<Rightarrow> nat option" where
  "Index [] sep = (if prefix sep [] then Some 0 else None)"
| "Index (c # cs) sep = (if prefix sep (c # cs) then Some 0 else map_option Suc (Index cs sep))"

definition SplitN2 :: "string \<Rightarrow> string \<Rightarrow> string list" where
  "SplitN2 s sep =
     (case Index s sep of
        None \<Rightarrow> [s]
      | Some i \<Rightarrow> [take i s, drop (i + length sep) s])"

text \<open>
  \<open>strings.TrimSpace\<close> removes the leading and trailing code points for which
  \<open>unicode.IsSpace\<close> holds. On the bytes of the string these are the UTF-8 encodings of
  U+0009..U+000D, U+0020, U+0085, U+00A0, U+1680, U+2000..U+200A, U+2028, U+2029, U+202F,
  U+205F and U+3000.
\<close>

definition space_encodings :: "string list" where
  "space_encodings =
     map (\<lambda>b. [b]) [CHR 0x09, CHR 0x0A, CHR 0x0B, CHR 0x0C, CHR 0x0D, CHR 0x20]
     @ map (\<lambda>b. [CHR 0xC2, b]) [CHR 0x85, CHR 0xA0]
     @ map (\<lambda>b. [CHR 0xE1, CHR 0x9A, b]) [CHR 0x80]
     @ map (\<lambda>b. [CHR 0xE2, CHR 0x80, b])
         [CHR 0x80, CHR 0x81, CHR 0x82, CHR 0x83, CHR 0x84, CHR 0x85, CHR 0x86, CHR 0x87,
          CHR 0x88, CHR 0x89, CHR 0x8A, CHR 0xA8, CHR 0xA9, CHR 0xAF]
     @ map (\<lambda>b. [CHR 0xE2, CHR 0x81, b]) [CHR 0x9F]
     @ map (\<lambda>b. [CHR 0xE3, CHR 0x80, b]) [CHR 0x80]"

text \<open>The width in bytes of the member of \<open>encs\<close> that \<open>s\<close> starts with, 0 when there is none.\<close>

definition leading_width :: "string list \<Rightarrow> string \<Rightarrow> nat" where
  "leading_width encs s = (case find (\<lambda>e. prefix e s) encs of None \<Rightarrow> 0 | Some e \<Rightarrow> length e)"

fun trim_leading :: "string list \<Rightarrow> string \<Rightarrow> string" where
  "trim_leading encs [] = []"
| "trim_leading encs (c # cs) =
     (let w = leading_width encs (c # cs)
      in if w = 0 then c # cs else trim_leading encs (drop (w - 1) cs))"

definition TrimSpace :: "string \<Rightarrow> string" where
  "TrimSpace s =
     rev (trim_leading (map rev space_encodings) (rev (trim_leading space_encodings s)))"

text \<open>
  What the call of the metadata probe gives: the command fails (or times out), its output
  is not the expected JSON, or the tags of the format section.
\<close>

datatype probe = ExecFailed | UnmarshalFailed | ProbeTags "string \<Rightarrow> string option"

definition parse_tags :: "(string \<Rightarrow> string option) \<Rightarrow> TrackInfo \<Rightarrow> TrackInfo" where
  "parse_tags tags t =
     (case tags ''StreamTitle'' of
        Some title \<Rightarrow>
          (let t = t\<lparr>Raw := title\<rparr>
           in case SplitN2 title '' - '' of
                [p0, p1] \<Rightarrow> t\<lparr>Artist := TrimSpace p0, Title := TrimSpace p1\<rparr>
              | _ \<Rightarrow> t\<lparr>Title := title, Artist := []\<rparr>)
      | None \<Rightarrow>
          (case tags ''icy-name'' of
             Some title \<Rightarrow> t\<lparr>Raw := title, Title := title\<rparr>
           | None \<Rightarrow> t))"

text \<open>\<open>FetchTrack\<close> returns the track and leaves it stored in the visualizer.\<close>

definition FetchTrack :: "Visualizer \<Rightarrow> probe \<Rightarrow> TrackInfo \<times> Visualizer" where
  "FetchTrack v pr =
     (if streamURL v = [] then (track v, v)
      else
        case pr of
          ExecFailed \<Rightarrow> (track v, v)
        | UnmarshalFailed \<Rightarrow> (track v, v)
        | ProbeTags tags \<Rightarrow>
            (let v' = v\<lparr>track := parse_tags tags (track v)\<rparr> in (track v', v')))"

subsection \<open>Concrete inputs used below\<close>

text \<open>The zero value \<open>Config{}\<close>.\<close>

definition zero_Config :: Config where
  "zero_Config =
     \<lparr> Width = 0, Height = 0, SampleRate = 0, ChunkSize = 0, FPS = 0,
       SmoothFactor = 0, Char_str = [], BarSpacing = 0, Amplify = 0, ShowStatus = False \<rparr>"

text \<open>A read that fails with an error other than the two end-of-file errors.\<close>

definition hard_error_read :: iteration where
  "hard_error_read = \<lparr> ctx_done = None, read_bytes = [], read_err = Some (OtherError 0) \<rparr>"

text \<open>
  The scenario configuration: 4 columns, 4 rows, chunks of 8 samples, smoothing factor
  and amplification 1; a chunk of four silent and four full-scale samples, as samples and
  as the 16 bytes of the stream.
\<close>

definition scenario_Config :: Config where
  "scenario_Config =
     \<lparr> Width = 4, Height = 4, SampleRate = 44100, ChunkSize = 8, FPS = 30,
       SmoothFactor = 1, Char_str = ''|'', BarSpacing = 1, Amplify = 1, ShowStatus = True \<rparr>"

definition scenario_buffer :: "16 word list" where
  "scenario_buffer = [0, 0, 0, 0, 32767, 32767, 32767, 32767]"

definition scenario_bytes :: "8 word list" where
  "scenario_bytes = [0, 0, 0, 0, 0, 0, 0, 0, 0xFF, 0x7F, 0xFF, 0x7F, 0xFF, 0x7F, 0xFF, 0x7F]"

definition scenario_read :: iteration where
  "scenario_read = \<lparr> ctx_done = None, read_bytes = scenario_bytes, read_err = None \<rparr>"

definition scenario_profile :: "real list" where
  "scenario_profile = [0, 0, 32767 / 32768, 32767 / 32768]"

text \<open>The visualizer of the scenario once \<open>StartFromReader\<close> has marked it running.\<close>

definition scenario_started :: Visualizer where
  "scenario_started =
     \<lparr> config = scenario_Config, waveform = [0, 0, 0, 0], smoothed = [0, 0, 0, 0],
       track = \<lparr> Title = [], Artist = [], Raw = [] \<rparr>,
       streamURL = [], cancel = Some CancelFunc, running = True \<rparr>"



text \<open>
  Ten samples for four columns: two samples per column and two left over, silent in the
  first buffer and full-scale in the second.
\<close>

definition silent_buffer :: "16 word list" where
  "silent_buffer = [0, 0, 0, 0, 0, 0, 0, 0, 0, 0]"

definition remainder_buffer :: "16 word list" where
  "remainder_buffer = [0, 0, 0, 0, 0, 0, 0, 0, 32767, 32767]"

text \<open>Twelve rows and an amplification of \<open>10^19\<close>.\<close>

definition big_amp_Config :: Config where
  "big_amp_Config = scenario_Config\<lparr>Height := 12, Amplify := 10000000000000000000\<rparr>"

text \<open>
  One column, four rows, a glyph of two characters and no status line; and the same with
  \<open>2^61\<close> rows.
\<close>

definition wide_glyph_Config :: Config where
  "wide_glyph_Config =
     \<lparr> Width = 1, Height = 4, SampleRate = 44100, ChunkSize = 8, FPS = 30,
       SmoothFactor = 1, Char_str = ''##'', BarSpacing = 1, Amplify = 1, ShowStatus = False \<rparr>"

definition tall_Config :: Config where
  "tall_Config = wide_glyph_Config\<lparr>Height := 2 ^ 61\<rparr>"

text \<open>
  A visualizer that holds a stream URL, and the tags of two probe answers: a plain
  \<open>StreamTitle\<close>, and one with a second space in front of the separator.
\<close>

definition url_vis :: Visualizer where
  "url_vis = scenario_started\<lparr>streamURL := ''http://radio''\<rparr>"

definition plain_tags :: "string \<Rightarrow> string option" where
  "plain_tags = [''StreamTitle'' \<mapsto> ''A - B'']"

definition spaced_tags :: "string \<Rightarrow> string option" where
  "spaced_tags = [''StreamTitle'' \<mapsto> ''A  - B'']"

section \<open>Properties\<close>

subsection \<open>Arithmetic in 64 bits\<close>

lemma int64_wrap_id: "- (2 ^ 63) \<le> x \<Longrightarrow> x < 2 ^ 63 \<Longrightarrow> int64_wrap x = x"
  by (simp add: int64_wrap_def)

lemma grow_count_in_range:
  assumes "0 < Width cfg" and "0 < Height cfg" and "Width cfg * Height cfg * 4 < 2 ^ 63"
  shows "grow_count cfg = Width cfg * Height cfg * 4"
proof -
  define n where "n = Width cfg * Height cfg"
  from assms(1,2) have p: "0 < n"
    by (simp add: n_def)
  from assms(3) have q: "n * 4 < 2 ^ 63"
    by (simp add: n_def)
  from p q have "- (2 ^ 63) \<le> n" and "n < 2 ^ 63"
    by linarith+
  then have "int64_wrap n = n"
    by (rule int64_wrap_id)
  moreover from p q have "- (2 ^ 63) \<le> n * 4" and "n * 4 < 2 ^ 63"
    by linarith+
  then have "int64_wrap (n * 4) = n * 4"
    by (rule int64_wrap_id)
  ultimately show ?thesis
    by (simp add: grow_count_def n_def)
qed

subsection \<open>Construction\<close>

lemma New_Inr:
  "New cfg = Inr v \<longleftrightarrow>
     0 \<le> Width (backfill cfg) \<and>
     v = \<lparr> config = backfill cfg, waveform = replicate (nat (Width (backfill cfg))) 0,
           smoothed = replicate (nat (Width (backfill cfg))) 0,
           track = \<lparr> Title = [], Artist = [], Raw = [] \<rparr>,
           streamURL = [], cancel = None, running = False \<rparr>"
  by (auto simp: New_def make_float64_def Let_def)

lemma backfill_SmoothFactor: "SmoothFactor (backfill cfg) = SmoothFactor cfg"
  by (simp add: backfill_def Let_def)

lemma backfill_nonzero:
  "Width (backfill cfg) \<noteq> 0" "Height (backfill cfg) \<noteq> 0" "SampleRate (backfill cfg) \<noteq> 0"
  "ChunkSize (backfill cfg) \<noteq> 0" "FPS (backfill cfg) \<noteq> 0" "BarSpacing (backfill cfg) \<noteq> 0"
  "Amplify (backfill cfg) \<noteq> 0" "Char_str (backfill cfg) \<noteq> []"
  by (simp_all add: backfill_def Let_def)

lemma New_DefaultConfig:
  "New DefaultConfig =
     Inr \<lparr> config = DefaultConfig, waveform = replicate 60 0, smoothed = replicate 60 0,
           track = \<lparr> Title = [], Artist = [], Raw = [] \<rparr>,
           streamURL = [], cancel = None, running = False \<rparr>"
  by (simp add: New_Inr backfill_def DefaultConfig_def)

text \<open>
  C3. \<open>New\<close> replaces a zero \<open>Width\<close>, \<open>Height\<close>, \<open>SampleRate\<close>, \<open>ChunkSize\<close>, \<open>FPS\<close>,
  \<open>BarSpacing\<close> and \<open>Amplify\<close> and an empty \<open>Char\<close> by the values of \<open>DefaultConfig\<close>
  (lemma \<open>backfill_nonzero\<close>), but it has no such step for \<open>SmoothFactor\<close>: built from the
  zero \<open>Config\<close>, the visualizer has every other default and a smoothing factor of 0, where
  the default is 0.9.
\<close>

theorem New_keeps_zero_SmoothFactor:
  "New zero_Config =
     Inr \<lparr> config = DefaultConfig\<lparr>SmoothFactor := 0, ShowStatus := False\<rparr>,
           waveform = replicate 60 0, smoothed = replicate 60 0,
           track = \<lparr> Title = [], Artist = [], Raw = [] \<rparr>,
           streamURL = [], cancel = None, running = False \<rparr>
   \<and> SmoothFactor DefaultConfig = 9 / 10"
  by (simp add: New_Inr backfill_def zero_Config_def DefaultConfig_def)

subsection \<open>Stop\<close>

text \<open>
  C10. A visualizer that \<open>New\<close> has built and no start operation has touched holds no
  cancellation handle. \<open>Stop\<close> on it does not panic and does not call the handle, and
  \<open>IsRunning\<close> is false afterwards.
\<close>

theorem Stop_never_started:
  "New cfg = Inr v \<Longrightarrow>
     cancel v = None \<and> Stop v = Inr (False, v\<lparr>running := False\<rparr>)
     \<and> \<not> IsRunning (v\<lparr>running := False\<rparr>)"
  by (auto simp: New_Inr Stop_def IsRunning_def)

theorem Stop_never_started_witness:
  "\<exists>v. New DefaultConfig = Inr v \<and> cancel v = None
       \<and> Stop v = Inr (False, v\<lparr>running := False\<rparr>)
       \<and> \<not> IsRunning (v\<lparr>running := False\<rparr>)"
proof -
  obtain v where h: "New DefaultConfig = Inr v"
    by (simp add: New_DefaultConfig)
  from Stop_never_started [OF h] h show ?thesis by blast
qed

subsection \<open>Exits of the stream loop\<close>

lemma stream_loop_cancelled:
  "ctx_done it = Some e \<Longrightarrow>
     stream_loop n v wave out (it # its)
       = \<lparr> exit = Some (Return (ContextError e)), vis = v\<lparr>running := False\<rparr>, printed = out \<rparr>"
  by simp

text \<open>
  C2. Started on a reader whose first read fails with a hard error, the loop returns
  that error, and the visualizer still reports that it is running: the branch
  \<open>return err\<close> does not clear the flag, which only the cancellation branch does
  (lemma \<open>stream_loop_cancelled\<close>).
\<close>

theorem hard_read_error_leaves_running:
  "\<exists>v. New DefaultConfig = Inr v
       \<and> exit (StartFromReader v [hard_error_read]) = Some (Return (ReadError (OtherError 0)))
       \<and> IsRunning (vis (StartFromReader v [hard_error_read]))"
proof -
  let ?v = "\<lparr> config = DefaultConfig, waveform = replicate 60 0, smoothed = replicate 60 0,
              track = \<lparr> Title = [], Artist = [], Raw = [] \<rparr>,
              streamURL = [], cancel = None, running = False \<rparr>"
  have run: "StartFromReader ?v [hard_error_read]
      = \<lparr> exit = Some (Return (ReadError (OtherError 0))),
          vis = ?v\<lparr>cancel := Some CancelFunc, running := True\<rparr>, printed = [] \<rparr>"
    by (simp add: StartFromReader_def processStream_def make_float64_def
        DefaultConfig_def hard_error_read_def)
  have "New DefaultConfig = Inr ?v"
    by (rule New_DefaultConfig)
  moreover have "exit (StartFromReader ?v [hard_error_read]) = Some (Return (ReadError (OtherError 0)))"
    by (simp add: run)
  moreover have "IsRunning (vis (StartFromReader ?v [hard_error_read]))"
    by (simp add: run IsRunning_def)
  ultimately show ?thesis by blast
qed



lemma stream_loop_full_read:
  assumes "ctx_done it = None" and "read_err it = None" and "\<not> length (read_bytes it) < n"
    and "convertToWaveform (demux (nat (ChunkSize (config v))) (take n (read_bytes it))) wave = Inr wave'"
    and "smooth (SmoothFactor (config v)) (smoothed v) wave' = Inr sm"
    and "Render (v\<lparr>smoothed := sm\<rparr>) = Inr frame"
  shows "stream_loop n v wave out (it # its)
           = stream_loop n (v\<lparr>smoothed := sm\<rparr>) wave' (out @ [frame]) its"
  using assms by (simp add: Let_def)



subsection \<open>Smoothing\<close>

lemma smooth_elem_zero: "smooth_elem 0 wave sm i = sm"
  by (simp add: smooth_elem_def)

lemma foldl_smooth_zero: "foldl (smooth_elem 0 wave) sm is = sm"
  by (induction "is") (simp_all add: smooth_elem_zero)

lemma smooth_zero: "smooth 0 sm wave = Inr sm' \<Longrightarrow> sm' = sm"
  by (auto simp: smooth_def foldl_smooth_zero split: if_splits)

lemma foldl_smooth_one:
  "k \<le> length wave \<Longrightarrow> length sm = length wave \<Longrightarrow>
     foldl (smooth_elem 1 wave) sm [0..<k] = take k wave @ drop k sm"
proof (induction k)
  case 0
  then show ?case by simp
next
  case (Suc k)
  then have IH: "foldl (smooth_elem 1 wave) sm [0..<k] = take k wave @ drop k sm"
    by simp
  have "foldl (smooth_elem 1 wave) sm [0..<Suc k] = (take k wave @ drop k sm)[k := wave ! k]"
    by (simp add: IH) (simp add: smooth_elem_def)
  also have "\<dots> = take (Suc k) wave @ drop (Suc k) sm"
    using Suc.prems
    by (simp add: list_update_append take_Suc_conv_app_nth upd_conv_take_nth_drop)
  finally show ?case .
qed

lemma smooth_one: "length sm = length wave \<Longrightarrow> smooth 1 sm wave = Inr wave"
  by (simp add: smooth_def foldl_smooth_one)

lemma stream_loop_factor_zero:
  "SmoothFactor (config v) = 0 \<Longrightarrow> smoothed (vis (stream_loop n v wave out its)) = smoothed v"
proof (induction its arbitrary: v wave out)
  case Nil
  then show ?case by simp
next
  case (Cons it its)
  show ?case
    using Cons.prems
    by (auto simp: Cons.IH Let_def dest!: smooth_zero split: option.splits sum.splits)
qed

text \<open>
  C6. With a smoothing factor of 0 the smoothed vector of a freshly built visualizer is
  all zeros after any run of the loop, whatever was read and however many frames were
  processed, and one update leaves any smoothed vector as it was. With a factor of 1 one
  update makes the smoothed vector the raw profile, whatever it held before. (The two
  vectors have the same length \<open>Width\<close> in the loop.)
\<close>

theorem smoothing_factor_extremes:
  "(New cfg = Inr v \<and> SmoothFactor cfg = 0 \<longrightarrow>
      smoothed (vis (StartFromReader v its)) = replicate (nat (Width (config v))) 0)
   \<and> (length raw \<le> length sm \<longrightarrow> smooth 0 sm raw = Inr sm)
   \<and> (length sm = length raw \<longrightarrow> smooth 1 sm raw = Inr raw)"
proof (intro conjI impI)
  assume a: "New cfg = Inr v \<and> SmoothFactor cfg = 0"
  then have sf: "SmoothFactor (config v) = 0" and sm: "smoothed v = replicate (nat (Width (config v))) 0"
    by (auto simp: New_Inr backfill_SmoothFactor)
  have "smoothed (vis (processStream v' its)) = smoothed v'" if "SmoothFactor (config v') = 0" for v'
    using that by (simp add: processStream_def stream_loop_factor_zero split: sum.splits)
  from this [of "v\<lparr>cancel := Some CancelFunc, running := True\<rparr>"] sf sm
  show "smoothed (vis (StartFromReader v its)) = replicate (nat (Width (config v))) 0"
    by (simp add: StartFromReader_def)
next
  assume "length raw \<le> length sm"
  then show "smooth 0 sm raw = Inr sm"
    by (simp add: smooth_def foldl_smooth_zero)
next
  assume "length sm = length raw"
  then show "smooth 1 sm raw = Inr raw"
    by (rule smooth_one)
qed

theorem smoothing_factor_extremes_witness:
  "(\<exists>v. New (scenario_Config\<lparr>SmoothFactor := 0\<rparr>) = Inr v
        \<and> smoothed (vis (StartFromReader v [scenario_read, scenario_read])) = [0, 0, 0, 0])
   \<and> smooth 0 [1, 2] [3, 4] = Inr [1, 2]
   \<and> smooth 1 [1, 2] [3, 4] = Inr [3, 4]"
proof -
  let ?cfg = "scenario_Config\<lparr>SmoothFactor := 0\<rparr>"
  let ?v = "\<lparr> config = ?cfg, waveform = [0, 0, 0, 0], smoothed = [0, 0, 0, 0],
              track = \<lparr> Title = [], Artist = [], Raw = [] \<rparr>,
              streamURL = [], cancel = None, running = False \<rparr>"
  have n: "New ?cfg = Inr ?v"
    by (simp add: New_Inr backfill_def scenario_Config_def eval_nat_numeral)
  have z: "SmoothFactor ?cfg = 0" by simp
  have w: "replicate (nat (Width (config ?v))) (0::real) = [0, 0, 0, 0]"
    by (simp add: scenario_Config_def eval_nat_numeral)
  from smoothing_factor_extremes [of ?cfg ?v "[scenario_read, scenario_read]" "[3, 4]" "[1, 2]"] n z w
  show ?thesis by auto
qed

subsection \<open>The scenario, end to end\<close>

lemma upt_4: "[0..<4] = [0, 1, 2, 3]"
  by (simp add: upt_rec)

lemma upt_8: "[0..<8] = [0, 1, 2, 3, 4, 5, 6, 7]"
  by (simp add: upt_rec)

lemma demux_scenario: "demux 8 scenario_bytes = scenario_buffer"
  by (simp add: demux_def demux_sample_def scenario_bytes_def scenario_buffer_def upt_8)

lemma scenario_column_sums:
  "column_sum scenario_buffer 0 2 = 0"
  "column_sum scenario_buffer 2 4 = 0"
  "column_sum scenario_buffer 4 6 = 2 * (32767 / 32768)\<^sup>2"
  "column_sum scenario_buffer 6 8 = 2 * (32767 / 32768)\<^sup>2"
  by (simp_all add: column_sum_def scenario_buffer_def upt_rec Let_def power2_eq_square)

lemma convertToWaveform_scenario:
  "convertToWaveform scenario_buffer [0, 0, 0, 0] = Inr scenario_profile"
proof -
  have len: "length scenario_buffer = 8"
    by (simp add: scenario_buffer_def)
  have root: "sqrt (2 * (32767 / 32768)\<^sup>2 / 2) = 32767 / 32768"
    by (simp add: real_sqrt_abs)
  show ?thesis
    by (simp add: convertToWaveform_def convert_column_def column_range_def len upt_4 Let_def
        scenario_column_sums root scenario_profile_def)
qed

lemma renderFrame_no_panic:
  "0 \<le> grow_count cfg \<Longrightarrow> \<exists>frame. renderFrame cfg wave = Inr frame"
  by (simp add: renderFrame_def Let_def)

lemma renderFrame_count_in_range:
  assumes "0 < Width cfg" and "0 < Height cfg" and "Width cfg * Height cfg * 4 < 2 ^ 63"
  shows "renderFrame cfg wave \<noteq> Inl GrowNegativeCount"
proof -
  from assms have "0 \<le> grow_count cfg"
    by (simp add: grow_count_in_range)
  from renderFrame_no_panic [OF this, of wave] show ?thesis
    by auto
qed

lemma New_scenario:
  "New scenario_Config = Inr (scenario_started\<lparr>cancel := None, running := False\<rparr>)"
  by (simp add: New_Inr backfill_def scenario_Config_def scenario_started_def eval_nat_numeral)

lemma processStream_scenario:
  "processStream scenario_started its = stream_loop 16 scenario_started [0, 0, 0, 0] [] its"
proof -
  have "replicate 4 (0::real) = [0, 0, 0, 0]"
    by (simp add: eval_nat_numeral)
  then show ?thesis
    by (simp add: processStream_def make_float64_def scenario_started_def scenario_Config_def)
qed

lemma smooth_scenario: "smooth 1 [0, 0, 0, 0] scenario_profile = Inr scenario_profile"
  by (rule smooth_one) (simp add: scenario_profile_def)

text \<open>
  C5. In the scenario the 16 bytes demux to the samples \<open>[0,0,0,0,32767,32767,32767,32767]\<close>,
  which reduce to the profile \<open>[0, 0, 32767/32768, 32767/32768]\<close>: columns 0 and 1 are
  exactly 0, columns 2 and 3 are within \<open>2\<^sup>-\<^sup>1\<^sup>5\<close> of 1 (a full-scale sample is 32767
  and the divisor is 32768). One smoothing step from the all-zero vector gives that
  profile itself, and so does one pass of the loop on a freshly built visualizer. Every
  intermediate value here is a dyadic rational that \<open>float64\<close> holds exactly.
\<close>

theorem end_to_end_scenario:
  "demux 8 scenario_bytes = scenario_buffer
   \<and> convertToWaveform scenario_buffer [0, 0, 0, 0] = Inr scenario_profile
   \<and> list_all2 (\<lambda>x y. \<bar>x - y\<bar> \<le> 1 / 32768) scenario_profile [0, 0, 1, 1]
   \<and> smooth 1 [0, 0, 0, 0] scenario_profile = Inr scenario_profile
   \<and> (\<exists>v. New scenario_Config = Inr v
          \<and> exit (StartFromReader v [scenario_read]) = None
          \<and> smoothed (vis (StartFromReader v [scenario_read])) = scenario_profile)"
proof -
  let ?v = "scenario_started"
  let ?new = "scenario_started\<lparr>cancel := None, running := False\<rparr>"
  have tol: "list_all2 (\<lambda>x y. \<bar>x - y\<bar> \<le> 1 / 32768) scenario_profile [0, 0, 1, 1]"
    by (simp add: scenario_profile_def)
  have cfg: "config ?v = scenario_Config" and sm0: "smoothed ?v = [0, 0, 0, 0]"
    by (simp_all add: scenario_started_def)
  have "0 \<le> grow_count scenario_Config"
    by (simp add: grow_count_def int64_wrap_def scenario_Config_def)
  from renderFrame_no_panic [OF this, of scenario_profile]
  obtain frame where "renderFrame scenario_Config scenario_profile = Inr frame"
    by blast
  then have frame: "Render (?v\<lparr>smoothed := scenario_profile\<rparr>) = Inr frame"
    by (simp add: Render_def scenario_started_def)
  have step: "stream_loop 16 ?v [0, 0, 0, 0] [] [scenario_read]
                = stream_loop 16 (?v\<lparr>smoothed := scenario_profile\<rparr>) scenario_profile ([] @ [frame]) []"
  proof (rule stream_loop_full_read)
    have "take 16 (read_bytes scenario_read) = scenario_bytes"
      by (simp add: scenario_read_def scenario_bytes_def)
    then show "convertToWaveform (demux (nat (ChunkSize (config ?v))) (take 16 (read_bytes scenario_read))) [0, 0, 0, 0]
            = Inr scenario_profile"
      by (simp add: cfg scenario_Config_def demux_scenario convertToWaveform_scenario)
    show "smooth (SmoothFactor (config ?v)) (smoothed ?v) scenario_profile = Inr scenario_profile"
      by (simp add: cfg sm0 scenario_Config_def smooth_scenario)
    show "Render (?v\<lparr>smoothed := scenario_profile\<rparr>) = Inr frame"
      by (rule frame)
  qed (simp_all add: scenario_read_def scenario_bytes_def)
  have start: "StartFromReader ?new [scenario_read] = processStream ?v [scenario_read]"
    by (simp add: StartFromReader_def scenario_started_def)
  have run: "StartFromReader ?new [scenario_read]
               = \<lparr> exit = None, vis = ?v\<lparr>smoothed := scenario_profile\<rparr>, printed = [frame] \<rparr>"
    unfolding start processStream_scenario step by simp
  have "New scenario_Config = Inr ?new"
    by (rule New_scenario)
  moreover have "exit (StartFromReader ?new [scenario_read]) = None"
    by (simp only: run) simp
  moreover have "smoothed (vis (StartFromReader ?new [scenario_read])) = scenario_profile"
    by (simp only: run) simp
  ultimately have "\<exists>v. New scenario_Config = Inr v
          \<and> exit (StartFromReader v [scenario_read]) = None
          \<and> smoothed (vis (StartFromReader v [scenario_read])) = scenario_profile"
    by blast
  with demux_scenario convertToWaveform_scenario tol smooth_scenario show ?thesis by blast
qed

subsection \<open>The column reducer\<close>

lemma column_range_unclamped:
  assumes "col < W" and "spc = n div W"
  shows "column_range n spc col = (col * spc, col * spc + spc)"
proof -
  have "Suc col \<le> W" using assms by simp
  then have "Suc col * spc \<le> W * spc"
    by (rule mult_le_mono1)
  also have "W * spc \<le> n"
    using assms by simp
  finally have "col * spc + spc \<le> n" by simp
  then show ?thesis
    by (simp add: column_range_def Let_def min_def)
qed

lemma column_sum_cong:
  assumes "\<And>i. start \<le> i \<Longrightarrow> i < stop \<Longrightarrow> b ! i = b' ! i"
  shows "column_sum b start stop = column_sum b' start stop"
  unfolding column_sum_def
  by (rule foldl_cong) (auto simp: assms)

lemma length_convert_column: "length (convert_column buffer spc wave col) = length wave"
  by (simp add: convert_column_def Let_def split: prod.splits)

lemma length_foldl_convert_column:
  "length (foldl (convert_column buffer spc) wave cols) = length wave"
  by (induction cols arbitrary: wave) (simp_all add: length_convert_column)

lemma nth_convert_column:
  "0 < spc \<Longrightarrow> col < length wave \<Longrightarrow>
     convert_column buffer spc wave col ! c =
       (if c = col
        then sqrt (column_sum buffer (fst (column_range (length buffer) spc col))
                     (snd (column_range (length buffer) spc col)) / real spc)
        else wave ! c)"
  by (simp add: convert_column_def Let_def nth_list_update split: prod.splits)

lemma nth_foldl_convert_column:
  assumes "0 < spc"
  shows "k \<le> length wave \<Longrightarrow> col < length wave \<Longrightarrow>
     foldl (convert_column buffer spc) wave [0..<k] ! col =
       (if col < k
        then sqrt (column_sum buffer (fst (column_range (length buffer) spc col))
                     (snd (column_range (length buffer) spc col)) / real spc)
        else wave ! col)"
proof (induction k)
  case 0
  then show ?case by simp
next
  case (Suc k)
  then show ?case
    using assms
    by (auto simp: nth_convert_column length_foldl_convert_column less_Suc_eq)
qed

lemma convertToWaveform_cong:
  assumes W: "0 < length wave"
    and len: "length buffer' = length buffer"
    and same: "take (length wave * (length buffer div length wave)) buffer'
             = take (length wave * (length buffer div length wave)) buffer"
  shows "convertToWaveform buffer' wave = convertToWaveform buffer wave"
proof -
  let ?W = "length wave"
  let ?spc = "length buffer div ?W"
  have nth: "buffer' ! i = buffer ! i" if "i < ?W * ?spc" for i
  proof -
    have "buffer' ! i = take (?W * ?spc) buffer' ! i" using that by simp
    also have "\<dots> = take (?W * ?spc) buffer ! i" by (simp only: same)
    also have "\<dots> = buffer ! i" using that by simp
    finally show ?thesis .
  qed
  have col: "convert_column buffer' ?spc w col = convert_column buffer ?spc w col"
    if "col \<in> set [0..<?W]" for w col
  proof -
    from that have c: "col < ?W" by simp
    have r: "column_range (length buffer) ?spc col = (col * ?spc, col * ?spc + ?spc)"
      using c by (rule column_range_unclamped) simp
    have "Suc col * ?spc \<le> ?W * ?spc"
      using c by (intro mult_le_mono1) simp
    then have up: "col * ?spc + ?spc \<le> ?W * ?spc" by simp
    have "column_sum buffer' (col * ?spc) (col * ?spc + ?spc) = column_sum buffer (col * ?spc) (col * ?spc + ?spc)"
      by (rule column_sum_cong) (use up in \<open>auto intro: nth\<close>)
    then show ?thesis
      by (simp add: convert_column_def len r)
  qed
  have "foldl (convert_column buffer' ?spc) wave [0..<?W] = foldl (convert_column buffer ?spc) wave [0..<?W]"
    by (rule foldl_cong) (simp_all add: col del: set_upt)
  then show ?thesis
    by (simp add: convertToWaveform_def len Let_def)
qed

text \<open>
  C1, as the code has it. With \<open>W > 0\<close> columns and \<open>samplesPerColumn = len(buffer) / W > 0\<close>,
  the final column spans \<open>[(W-1) * samplesPerColumn, W * samplesPerColumn)\<close>, as wide as
  every other column: \<open>W * samplesPerColumn\<close> never exceeds \<open>len(buffer)\<close>, so the clamp
  of \<open>end\<close> never takes effect. Its value is the root of the mean square over that span,
  and the samples from \<open>W * samplesPerColumn\<close> on do not reach the profile: two buffers
  that agree below that index reduce to the same profile.
\<close>

theorem final_column_span:
  assumes "0 < length wave" and "0 < length buffer div length wave"
    and "length buffer' = length buffer"
    and "take (length wave * (length buffer div length wave)) buffer'
           = take (length wave * (length buffer div length wave)) buffer"
  shows "column_range (length buffer) (length buffer div length wave) (length wave - 1)
           = ((length wave - 1) * (length buffer div length wave),
              length wave * (length buffer div length wave))
       \<and> (\<exists>profile. convertToWaveform buffer wave = Inr profile \<and> length profile = length wave
             \<and> profile ! (length wave - 1)
                 = sqrt (column_sum buffer ((length wave - 1) * (length buffer div length wave))
                           (length wave * (length buffer div length wave))
                         / real (length buffer div length wave)))
       \<and> convertToWaveform buffer' wave = convertToWaveform buffer wave"
proof -
  let ?W = "length wave"
  let ?spc = "length buffer div ?W"
  have last: "?W - 1 < ?W" using assms(1) by simp
  have "(?W - 1) * ?spc + ?spc = ?W * ?spc"
    using assms(1) by (cases ?W) simp_all
  with column_range_unclamped [OF last, of ?spc "length buffer"]
  have r: "column_range (length buffer) ?spc (?W - 1) = ((?W - 1) * ?spc, ?W * ?spc)"
    by simp
  have v: "foldl (convert_column buffer ?spc) wave [0..<?W] ! (?W - 1)
             = sqrt (column_sum buffer ((?W - 1) * ?spc) (?W * ?spc) / real ?spc)"
    using nth_foldl_convert_column [OF assms(2), of ?W wave "?W - 1" buffer] last r
    by simp
  have "convertToWaveform buffer wave = Inr (foldl (convert_column buffer ?spc) wave [0..<?W])"
    using assms(1) by (simp add: convertToWaveform_def Let_def)
  with v have "\<exists>profile. convertToWaveform buffer wave = Inr profile \<and> length profile = ?W
             \<and> profile ! (?W - 1) = sqrt (column_sum buffer ((?W - 1) * ?spc) (?W * ?spc) / real ?spc)"
    by (simp add: length_foldl_convert_column)
  with r convertToWaveform_cong [OF assms(1,3,4)] show ?thesis by blast
qed

theorem final_column_span_witness:
  "column_range 10 2 3 = (6, 8)
   \<and> (\<exists>profile. convertToWaveform silent_buffer [0, 0, 0, 0] = Inr profile \<and> length profile = 4
         \<and> profile ! 3 = sqrt (column_sum silent_buffer 6 8 / 2))
   \<and> convertToWaveform remainder_buffer [0, 0, 0, 0] = convertToWaveform silent_buffer [0, 0, 0, 0]"
proof -
  have l: "length silent_buffer = 10" "length remainder_buffer = 10"
    by (simp_all add: silent_buffer_def remainder_buffer_def)
  have t: "take 8 remainder_buffer = take 8 silent_buffer"
    by (simp add: silent_buffer_def remainder_buffer_def)
  have n: "Suc (Suc (Suc 0)) = 3"
    by simp
  from final_column_span [of "[0, 0, 0, 0]" silent_buffer remainder_buffer] l t
  show ?thesis by (simp add: n)
qed

text \<open>
  C1, as stated, fails: with 10 samples and 4 columns the final column ends at sample 8,
  not 10, and two full-scale samples at 8 and 9 leave the whole profile at zero.
\<close>

theorem remainder_samples_dropped:
  "column_range 10 (10 div 4) 3 = (6, 8)
   \<and> snd (column_range 10 (10 div 4) 3) \<noteq> 10
   \<and> convertToWaveform remainder_buffer [0, 0, 0, 0] = Inr [0, 0, 0, 0]"
proof -
  have cs: "column_sum remainder_buffer 0 2 = 0" "column_sum remainder_buffer 2 4 = 0"
    "column_sum remainder_buffer 4 6 = 0" "column_sum remainder_buffer 6 8 = 0"
    by (simp_all add: column_sum_def remainder_buffer_def upt_rec Let_def)
  have len: "length remainder_buffer = 10" by (simp add: remainder_buffer_def)
  have "[0..<4] = [0, 1, 2, 3]" by (simp add: upt_rec)
  then have "convertToWaveform remainder_buffer [0, 0, 0, 0] = Inr [0, 0, 0, 0]"
    by (simp add: convertToWaveform_def convert_column_def column_range_def len Let_def cs)
  moreover have "column_range 10 (10 div 4) 3 = (6, 8)"
    by (simp add: column_range_def Let_def)
  ultimately show ?thesis by simp
qed

subsection \<open>Bar heights\<close>

lemma sdiv_2_nonneg: "0 \<le> h \<Longrightarrow> h sdiv 2 = h div (2::int)"
  by (simp add: signed_divide_int_def sgn_if)

lemma sdiv_2_le: "h < 2 ^ 63 \<Longrightarrow> h sdiv 2 \<le> (2 ^ 62 :: int)"
proof (cases "0 \<le> h")
  case True
  assume "h < 2 ^ 63"
  with True show ?thesis by (simp add: sdiv_2_nonneg)
next
  case False
  then have "h sdiv 2 = - ((- h) div 2)"
    by (simp add: signed_divide_int_def sgn_if)
  with False show ?thesis by simp
qed

lemma float_to_int_floor: "0 \<le> x \<Longrightarrow> x < 2 ^ 63 \<Longrightarrow> float_to_int x = \<lfloor>x\<rfloor>"
proof -
  assume x: "0 \<le> x" "x < 2 ^ 63"
  then have "0 \<le> \<lfloor>x\<rfloor>" and "\<lfloor>x\<rfloor> < 2 ^ 63"
    by (simp_all add: floor_less_iff)
  with x show ?thesis
    by (simp add: float_to_int_def Let_def)
qed

lemma float_to_int_pos:
  assumes "0 < float_to_int x"
  shows "0 \<le> x \<and> float_to_int x = \<lfloor>x\<rfloor>"
proof -
  let ?t = "if x \<ge> 0 then \<lfloor>x\<rfloor> else \<lceil>x\<rceil>"
  from assms have r: "- (2 ^ 63) \<le> ?t \<and> ?t < 2 ^ 63"
    by (auto simp: float_to_int_def Let_def split: if_splits)
  with assms have t: "0 < ?t" "float_to_int x = ?t"
    by (auto simp: float_to_int_def Let_def split: if_splits)
  have "0 \<le> x"
  proof (rule ccontr)
    assume "\<not> 0 \<le> x"
    then have "\<lceil>x\<rceil> \<le> 0" by (simp add: ceiling_le_iff)
    with t(1) \<open>\<not> 0 \<le> x\<close> show False by simp
  qed
  with t show ?thesis by simp
qed

lemma bar_height_le: "bar_height cfg midline val \<le> midline - 1"
  by (simp add: bar_height_def Let_def)

lemma bar_extent_mono:
  assumes x: "0 \<le> x" and xy: "x \<le> y"
    and range: "y * Amplify cfg * real_of_int (midline - 1) \<le> 2 ^ 62"
  shows "max 0 (bar_height cfg midline x) \<le> max 0 (bar_height cfg midline y)"
proof (cases "0 < bar_height cfg midline x")
  case False
  then show ?thesis by simp
next
  case True
  let ?k = "Amplify cfg * real_of_int (midline - 1)"
  from True have m: "0 < midline - 1" and fx: "0 < float_to_int (x * Amplify cfg * real_of_int (midline - 1))"
    by (simp_all add: bar_height_def Let_def)
  from float_to_int_pos [OF fx]
  have px: "0 \<le> x * ?k" and ex: "float_to_int (x * Amplify cfg * real_of_int (midline - 1)) = \<lfloor>x * ?k\<rfloor>"
    by (simp_all add: mult.assoc)
  from fx ex have "0 < \<lfloor>x * ?k\<rfloor>" by simp
  then have "1 \<le> x * ?k" by (simp only: zero_less_floor)
  then have "0 < x * ?k" by linarith
  with x have k: "0 < ?k"
    by (simp add: zero_less_mult_iff)
  with xy have le: "x * ?k \<le> y * ?k"
    by (simp add: mult_right_mono)
  with px have py: "0 \<le> y * ?k" by simp
  from range have "y * ?k < 2 ^ 63"
    by (simp add: mult.assoc)
  with py have ey: "float_to_int (y * Amplify cfg * real_of_int (midline - 1)) = \<lfloor>y * ?k\<rfloor>"
    using float_to_int_floor [of "y * ?k"] by (simp add: mult.assoc)
  from le have "\<lfloor>x * ?k\<rfloor> \<le> \<lfloor>y * ?k\<rfloor>" by (rule floor_mono)
  with ex ey have "bar_height cfg midline x \<le> bar_height cfg midline y"
    by (simp add: bar_height_def Let_def min_def)
  then show ?thesis by simp
qed

lemma draws_glyph_height:
  assumes "draws_glyph cfg wave midline row col"
  shows "\<exists>val. 0 < bar_height cfg midline val
             \<and> int64_wrap (midline - bar_height cfg midline val) \<le> row
             \<and> row \<le> int64_wrap (midline + bar_height cfg midline val)"
  using assms by (auto simp: draws_glyph_def Let_def split: if_splits)

lemma draws_glyph_rows:
  assumes "draws_glyph cfg wave midline row col" and "midline \<le> 2 ^ 62"
  shows "\<bar>row - midline\<bar> \<le> midline - 1"
proof -
  from draws_glyph_height [OF assms(1)] obtain val
    where h: "0 < bar_height cfg midline val"
      and lo: "int64_wrap (midline - bar_height cfg midline val) \<le> row"
      and hi: "row \<le> int64_wrap (midline + bar_height cfg midline val)"
    by blast
  let ?h = "bar_height cfg midline val"
  from bar_height_le [of cfg midline val] h assms(2)
  have "- (2 ^ 63) \<le> midline - ?h" "midline - ?h < 2 ^ 63"
    "- (2 ^ 63) \<le> midline + ?h" "midline + ?h < 2 ^ 63"
    by simp_all
  then have "int64_wrap (midline - ?h) = midline - ?h" "int64_wrap (midline + ?h) = midline + ?h"
    by (simp_all add: int64_wrap_id)
  with lo hi bar_height_le [of cfg midline val] show ?thesis
    by linarith
qed

lemma draws_glyph_column:
  assumes "BarSpacing cfg \<le> 1" and "0 \<le> col" and "col < int (length wave)"
    and "midline \<le> 2 ^ 62"
  shows "draws_glyph cfg wave midline row col \<longleftrightarrow>
           0 < bar_height cfg midline (wave ! nat col)
           \<and> \<bar>row - midline\<bar> \<le> bar_height cfg midline (wave ! nat col)"
proof (cases "0 < bar_height cfg midline (wave ! nat col)")
  case False
  with assms(1-3) show ?thesis
    by (simp add: draws_glyph_def Let_def)
next
  case True
  let ?h = "bar_height cfg midline (wave ! nat col)"
  from bar_height_le [of cfg midline "wave ! nat col"] True assms(4)
  have "- (2 ^ 63) \<le> midline - ?h" "midline - ?h < 2 ^ 63"
    "- (2 ^ 63) \<le> midline + ?h" "midline + ?h < 2 ^ 63"
    by simp_all
  then have w: "int64_wrap (midline - ?h) = midline - ?h" "int64_wrap (midline + ?h) = midline + ?h"
    by (simp_all add: int64_wrap_id)
  have "draws_glyph cfg wave midline row col \<longleftrightarrow>
          int64_wrap (midline - ?h) \<le> row \<and> row \<le> int64_wrap (midline + ?h) \<and> 0 < ?h"
    using assms(1-3) by (simp add: draws_glyph_def Let_def)
  with True show ?thesis
    unfolding w by auto
qed

text \<open>
  C7, as the code has it. A column draws its glyph in the rows within \<open>height\<close> of the
  midline when \<open>height > 0\<close> and in no row otherwise, so the height of the bar drawn is
  \<open>max 0 height\<close>. For every configuration that height is monotonically non-decreasing in
  the smoothed value, over non-negative values whose product with \<open>Amplify\<close> and
  \<open>midline - 1\<close> is at most \<open>2^62\<close>: the conversion to \<open>int\<close> then stays in range, also after
  the rounding of the \<open>float64\<close> product. A cell in which the glyph is drawn lies at most
  \<open>midline - 1\<close> rows above or below the midline, \<open>midline\<close> being \<open>Height / 2\<close>. The last
  part states the first sentence: without bar spacing, column \<open>col\<close> is drawn in \<open>row\<close>
  exactly when its height is positive and \<open>row\<close> is within that height of the midline.
\<close>

theorem bar_height_monotone_bounded:
  "(0 \<le> x \<and> x \<le> y
      \<and> y * Amplify cfg * real_of_int (Height cfg sdiv 2 - 1) \<le> 2 ^ 62 \<longrightarrow>
      max 0 (bar_height cfg (Height cfg sdiv 2) x) \<le> max 0 (bar_height cfg (Height cfg sdiv 2) y))
   \<and> (Height cfg < 2 ^ 63 \<and> draws_glyph cfg wave (Height cfg sdiv 2) row col \<longrightarrow>
        \<bar>row - Height cfg sdiv 2\<bar> \<le> Height cfg sdiv 2 - 1)
   \<and> (Height cfg < 2 ^ 63 \<and> BarSpacing cfg \<le> 1 \<and> 0 \<le> col \<and> col < int (length wave) \<longrightarrow>
        draws_glyph cfg wave (Height cfg sdiv 2) row col
          = (0 < bar_height cfg (Height cfg sdiv 2) (wave ! nat col)
             \<and> \<bar>row - Height cfg sdiv 2\<bar> \<le> bar_height cfg (Height cfg sdiv 2) (wave ! nat col)))"
proof (intro conjI impI)
  assume "0 \<le> x \<and> x \<le> y \<and> y * Amplify cfg * real_of_int (Height cfg sdiv 2 - 1) \<le> 2 ^ 62"
  then show "max 0 (bar_height cfg (Height cfg sdiv 2) x) \<le> max 0 (bar_height cfg (Height cfg sdiv 2) y)"
    by (intro bar_extent_mono) simp_all
next
  assume a: "Height cfg < 2 ^ 63 \<and> draws_glyph cfg wave (Height cfg sdiv 2) row col"
  then have "Height cfg sdiv 2 \<le> 2 ^ 62"
    by (intro sdiv_2_le) simp
  with a draws_glyph_rows [of cfg wave "Height cfg sdiv 2" row col]
  show "\<bar>row - Height cfg sdiv 2\<bar> \<le> Height cfg sdiv 2 - 1"
    by blast
next
  assume a: "Height cfg < 2 ^ 63 \<and> BarSpacing cfg \<le> 1 \<and> 0 \<le> col \<and> col < int (length wave)"
  then have "Height cfg sdiv 2 \<le> 2 ^ 62"
    by (intro sdiv_2_le) simp
  with a show "draws_glyph cfg wave (Height cfg sdiv 2) row col
          = (0 < bar_height cfg (Height cfg sdiv 2) (wave ! nat col)
             \<and> \<bar>row - Height cfg sdiv 2\<bar> \<le> bar_height cfg (Height cfg sdiv 2) (wave ! nat col))"
    by (intro draws_glyph_column) simp_all
qed

theorem bar_height_monotone_bounded_witness:
  "max 0 (bar_height scenario_Config (Height scenario_Config sdiv 2) (1 / 2))
     \<le> max 0 (bar_height scenario_Config (Height scenario_Config sdiv 2) 1)
   \<and> draws_glyph scenario_Config [1] (Height scenario_Config sdiv 2) 3 0
   \<and> \<bar>3 - Height scenario_Config sdiv 2\<bar> \<le> Height scenario_Config sdiv 2 - 1
   \<and> draws_glyph scenario_Config [1] (Height scenario_Config sdiv 2) 3 0
        = (0 < bar_height scenario_Config (Height scenario_Config sdiv 2) ([1] ! nat 0)
           \<and> \<bar>3 - Height scenario_Config sdiv 2\<bar>
                \<le> bar_height scenario_Config (Height scenario_Config sdiv 2) ([1] ! nat 0))"
proof -
  have col: "BarSpacing scenario_Config \<le> 1 \<and> (0::int) \<le> 0 \<and> 0 < int (length [1::real])"
    by (simp add: scenario_Config_def)
  have mono: "(0::real) \<le> 1 / 2 \<and> (1 / 2 :: real) \<le> 1
      \<and> 1 * Amplify scenario_Config * real_of_int (Height scenario_Config sdiv 2 - 1) \<le> 2 ^ 62"
    by (simp add: scenario_Config_def signed_divide_int_def)
  have h: "Height scenario_Config < 2 ^ 63"
    by (simp add: scenario_Config_def)
  have drawn: "draws_glyph scenario_Config [1] (Height scenario_Config sdiv 2) 3 0"
    by (simp add: draws_glyph_def bar_height_def float_to_int_def int64_wrap_def scenario_Config_def
        signed_divide_int_def Let_def)
  from bar_height_monotone_bounded
         [where x = "1 / 2" and y = 1 and cfg = scenario_Config and wave = "[1]" and row = 3 and col = 0]
       mono h drawn col
  show ?thesis by blast
qed

text \<open>
  C7, as stated, fails where the conversion to \<open>int\<close> leaves its range. With twelve rows
  and an amplification of \<open>10^19\<close> the product is \<open>5 * 10^18\<close> at the value 0.1, which gives
  the height 5, and \<open>5 * 10^19\<close> at the value 1, beyond \<open>2^63\<close>, which gives the smallest
  \<open>int\<close>: the column is drawn at the smaller value and empty at the larger one.
\<close>

theorem bar_height_falls_on_overflow:
  "(0::real) \<le> 1 / 10 \<and> (1 / 10 :: real) \<le> 1
   \<and> bar_height big_amp_Config (Height big_amp_Config sdiv 2) (1 / 10) = 5
   \<and> bar_height big_amp_Config (Height big_amp_Config sdiv 2) 1 = - (2 ^ 63)
   \<and> draws_glyph big_amp_Config [1 / 10] (Height big_amp_Config sdiv 2) 6 0
   \<and> \<not> draws_glyph big_amp_Config [1] (Height big_amp_Config sdiv 2) 6 0"
proof -
  have m: "Height big_amp_Config sdiv 2 = 6"
    by (simp add: big_amp_Config_def scenario_Config_def signed_divide_int_def)
  have a: "Amplify big_amp_Config = 10000000000000000000" and b: "BarSpacing big_amp_Config = 1"
    by (simp_all add: big_amp_Config_def scenario_Config_def)
  have lo: "bar_height big_amp_Config 6 (1 / 10) = 5"
    by (simp add: bar_height_def float_to_int_def a Let_def)
  have hi: "bar_height big_amp_Config 6 1 = - (2 ^ 63)"
    by (simp add: bar_height_def float_to_int_def a Let_def)
  have d1: "draws_glyph big_amp_Config [1 / 10] 6 6 0"
    by (simp add: draws_glyph_def lo b int64_wrap_def Let_def)
  have d2: "\<not> draws_glyph big_amp_Config [1] 6 6 0"
    by (simp add: draws_glyph_def hi b Let_def)
  from lo hi d1 d2 show ?thesis
    by (simp add: m)
qed

subsection \<open>The shape of a frame\<close>

lemma foldl_render_cell:
  "foldl (render_cell cfg wave midline row) sb cols
     = sb @ concat (map (\<lambda>col. if draws_glyph cfg wave midline row col then Char_str cfg else '' '') cols)"
  by (induction cols arbitrary: sb) (simp_all add: render_cell_def)

lemma foldl_render_row:
  "foldl (render_row cfg wave midline) sb rows
     = sb @ concat (map (\<lambda>row. concat (map (\<lambda>col. if draws_glyph cfg wave midline row col
                                                    then Char_str cfg else '' '')
                                          [0..Width cfg - 1]) @ [newline]) rows)"
  by (induction rows arbitrary: sb) (simp_all add: render_row_def foldl_render_cell)

lemma of_char_digit: "d < 10 \<Longrightarrow> of_char (digit_char d) = 48 + d"
  by (simp add: digit_char_def)

lemma digit_not_newline: "d < 10 \<Longrightarrow> digit_char d \<noteq> newline"
proof
  assume d: "d < 10" and "digit_char d = newline"
  then have "(of_char (digit_char d) :: nat) = of_char newline" by simp
  with d show False by (simp add: of_char_digit newline_def)
qed

lemma newline_nat_decimal: "newline \<notin> set (nat_decimal n)"
proof (induction n rule: nat_decimal.induct)
  case (1 n)
  show ?case
  proof (cases "n < 10")
    case True
    then show ?thesis
      using digit_not_newline [of n] by (subst nat_decimal.simps) auto
  next
    case False
    have "n mod 10 < 10" by simp
    from digit_not_newline [OF this] 1 False show ?thesis
      by (subst nat_decimal.simps) auto
  qed
qed

lemma newline_fmt_d: "newline \<notin> set (fmt_d i)"
  by (simp add: fmt_d_def newline_nat_decimal) (simp add: newline_def)

lemma status_line_one_line:
  "\<exists>body. status_line cfg = body @ [newline] \<and> newline \<notin> set body"
proof -
  let ?body = "''Audio Visualizer | '' @ fmt_d (SampleRate cfg) @ ''Hz | '' @ fmt_d (ChunkSize cfg)
       @ '' samples | '' @ fmt_d (FPS cfg) @ '' FPS''"
  have "status_line cfg = ?body @ [newline]"
    by (simp add: status_line_def)
  moreover have "newline \<notin> set ?body"
    by (simp add: newline_fmt_d) (simp add: newline_def)
  ultimately show ?thesis by blast
qed

text \<open>
  C4, as the code has it. For \<open>Width > 0\<close> and \<open>Height > 0\<close>, a frame that \<open>renderFrame\<close>
  returns is the two cursor control sequences, then exactly \<open>Height\<close> rows, each followed
  by a newline, then the status line when \<open>ShowStatus\<close> is set, and nothing else. Each row
  is \<open>Width\<close> cells, a cell being one space or the glyph \<open>Char\<close>; so a row is exactly
  \<open>Width\<close> characters wide when the glyph is one character. The status line is one line:
  it ends with its only newline. A frame is returned only when the count handed to
  \<open>Grow\<close>, the product \<open>Width * Height * 4\<close> in 64 bits, is not negative; it is not negative
  when the product is below \<open>2^63\<close> (lemma \<open>renderFrame_count_in_range\<close>).
\<close>

theorem renderFrame_shape:
  assumes "0 < Width cfg" and "0 < Height cfg" and "renderFrame cfg wave = Inr frame"
  shows "\<exists>rows body.
           0 \<le> grow_count cfg
         \<and> length rows = nat (Height cfg)
         \<and> (\<forall>r \<in> set rows. \<exists>cells. length cells = nat (Width cfg)
                \<and> set cells \<subseteq> {'' '', Char_str cfg} \<and> r = concat cells)
         \<and> (length (Char_str cfg) = 1 \<longrightarrow> (\<forall>r \<in> set rows. length r = nat (Width cfg)))
         \<and> status_line cfg = body @ [newline] \<and> newline \<notin> set body
         \<and> frame = cursor_prefix @ concat (map (\<lambda>r. r @ [newline]) rows)
                       @ (if ShowStatus cfg then status_line cfg else [])"
proof -
  let ?m = "Height cfg sdiv 2"
  let ?cell = "\<lambda>row col. if draws_glyph cfg wave ?m row col then Char_str cfg else '' ''"
  let ?cells = "\<lambda>row. map (?cell row) [0..Width cfg - 1]"
  let ?rows = "map (\<lambda>row. concat (?cells row)) [0..Height cfg - 1]"
  from status_line_one_line [of cfg] obtain body
    where body: "status_line cfg = body @ [newline]" "newline \<notin> set body"
    by blast
  have len_rows: "length ?rows = nat (Height cfg)"
    by simp
  have len_cells: "length (?cells row) = nat (Width cfg)" for row
    by simp
  have cells: "\<exists>cells. length cells = nat (Width cfg)
                 \<and> set cells \<subseteq> {'' '', Char_str cfg} \<and> r = concat cells"
    if "r \<in> set ?rows" for r
  proof -
    from that obtain row where r: "r = concat (?cells row)" by auto
    have "set (?cells row) \<subseteq> {'' '', Char_str cfg}" by auto
    with r len_cells [of row] show ?thesis by blast
  qed
  have width: "length r = nat (Width cfg)" if "length (Char_str cfg) = 1" and "r \<in> set ?rows" for r
  proof -
    from that(2) obtain row where r: "r = concat (?cells row)" by auto
    have "length (concat (map f cols)) = length cols" if "\<And>c. length (f c) = 1"
      for f :: "int \<Rightarrow> string" and cols
      using that by (induction cols) simp_all
    from this [of "?cell row" "[0..Width cfg - 1]"] that(1) r show ?thesis
      by simp
  qed
  from assms(3) have count: "0 \<le> grow_count cfg"
    by (simp add: renderFrame_def split: if_splits)
  with assms(3) have "frame = cursor_prefix @ concat (map (\<lambda>r. r @ [newline]) ?rows)
                @ (if ShowStatus cfg then status_line cfg else [])"
    by (simp add: renderFrame_def Let_def foldl_render_row comp_def split: if_splits)
  with count len_rows cells width body show ?thesis
    by blast
qed

theorem renderFrame_shape_witness:
  "\<exists>frame rows body.
       renderFrame scenario_Config scenario_profile = Inr frame
     \<and> length rows = 4
     \<and> list_all (\<lambda>r. length r = 4) rows
     \<and> status_line scenario_Config = body @ [newline] \<and> newline \<notin> set body
     \<and> frame = cursor_prefix @ concat (map (\<lambda>r. r @ [newline]) rows) @ status_line scenario_Config"
proof -
  have w: "0 < Width scenario_Config" and h: "0 < Height scenario_Config"
    and g: "length (Char_str scenario_Config) = 1" and s: "ShowStatus scenario_Config"
    and n: "nat (Height scenario_Config) = 4" "nat (Width scenario_Config) = 4"
    by (simp_all add: scenario_Config_def)
  have "0 \<le> grow_count scenario_Config"
    by (simp add: grow_count_def int64_wrap_def scenario_Config_def)
  from renderFrame_no_panic [OF this, of scenario_profile]
  obtain frame where f: "renderFrame scenario_Config scenario_profile = Inr frame"
    by blast
  from renderFrame_shape [OF w h f] g s n f
  show ?thesis
    by (auto simp: list_all_iff)
qed

text \<open>
  C4, as stated, fails: the frame of one column and four rows with the glyph \<open>##\<close> starts
  with the control sequences, so the character after the first \<open>Width\<close> characters is
  not a newline, and its glyph rows are two characters wide; the frame is 23 characters
  long where four rows of one character and a newline are 8. And with one column and
  \<open>2^61\<close> rows no frame is produced: the count \<open>Width * Height * 4\<close> is \<open>2^63\<close>, which is
  the smallest \<open>int\<close> in 64 bits, and \<open>Grow\<close> panics.
\<close>

theorem renderFrame_prefix_and_wide_rows:
  "renderFrame wide_glyph_Config [1]
     = Inr (ESC # ''[2;0H'' @ ESC # ''[?25l'' @ '' '' @ [newline] @ ''##'' @ [newline]
              @ ''##'' @ [newline] @ ''##'' @ [newline])
   \<and> (ESC # ''[2;0H'' @ ESC # ''[?25l'' @ '' '' @ [newline] @ ''##'' @ [newline]
              @ ''##'' @ [newline] @ ''##'' @ [newline]) ! nat (Width wide_glyph_Config) \<noteq> newline
   \<and> length (ESC # ''[2;0H'' @ ESC # ''[?25l'' @ '' '' @ [newline] @ ''##'' @ [newline]
              @ ''##'' @ [newline] @ ''##'' @ [newline])
        \<noteq> nat (Height wide_glyph_Config) * (nat (Width wide_glyph_Config) + 1)
   \<and> 0 < Width tall_Config \<and> 0 < Height tall_Config
   \<and> grow_count tall_Config = - (2 ^ 63)
   \<and> renderFrame tall_Config [1] = Inl GrowNegativeCount"
proof -
  have count: "grow_count tall_Config = - (2 ^ 63)"
    by (simp add: grow_count_def int64_wrap_def tall_Config_def wide_glyph_Config_def)
  then have tall: "renderFrame tall_Config [1] = Inl GrowNegativeCount"
    by (simp add: renderFrame_def)
  have pos: "0 < Width tall_Config \<and> 0 < Height tall_Config"
    by (simp add: tall_Config_def wide_glyph_Config_def)
  have rows: "[0..Height wide_glyph_Config - 1] = [0, 1, 2, 3]"
    and cols: "[0..Width wide_glyph_Config - 1] = [0]"
    by (simp_all add: wide_glyph_Config_def upto_rec1)
  have m: "Height wide_glyph_Config sdiv 2 = 2"
    by (simp add: wide_glyph_Config_def signed_divide_int_def)
  have bh: "bar_height wide_glyph_Config 2 1 = 1"
    by (simp add: bar_height_def float_to_int_def wide_glyph_Config_def Let_def)
  have bs: "BarSpacing wide_glyph_Config = 1"
    by (simp add: wide_glyph_Config_def)
  have dg: "\<not> draws_glyph wide_glyph_Config [1] 2 0 0" "draws_glyph wide_glyph_Config [1] 2 1 0"
    "draws_glyph wide_glyph_Config [1] 2 2 0" "draws_glyph wide_glyph_Config [1] 2 3 0"
    by (simp_all add: draws_glyph_def bh bs int64_wrap_def Let_def)
  have gc: "0 \<le> grow_count wide_glyph_Config"
    by (simp add: grow_count_def int64_wrap_def wide_glyph_Config_def)
  have "renderFrame wide_glyph_Config [1]
     = Inr (ESC # ''[2;0H'' @ ESC # ''[?25l'' @ '' '' @ [newline] @ ''##'' @ [newline]
              @ ''##'' @ [newline] @ ''##'' @ [newline])"
    using gc
    by (simp add: renderFrame_def Let_def m rows cols render_row_def render_cell_def dg cursor_prefix_def)
       (simp add: wide_glyph_Config_def)
  moreover have "(ESC # ''[2;0H'' @ ESC # ''[?25l'' @ '' '' @ [newline] @ ''##'' @ [newline]
              @ ''##'' @ [newline] @ ''##'' @ [newline]) ! nat (Width wide_glyph_Config) \<noteq> newline"
    by (simp add: wide_glyph_Config_def newline_def)
  moreover have "length (ESC # ''[2;0H'' @ ESC # ''[?25l'' @ '' '' @ [newline] @ ''##'' @ [newline]
              @ ''##'' @ [newline] @ ''##'' @ [newline])
        \<noteq> nat (Height wide_glyph_Config) * (nat (Width wide_glyph_Config) + 1)"
    by (simp add: wide_glyph_Config_def)
  ultimately show ?thesis using pos count tall by blast
qed

subsection \<open>Track metadata\<close>

lemma Index_SomeD:
  "Index s sep = Some i \<Longrightarrow>
     i \<le> length s \<and> prefix sep (drop i s) \<and> (\<forall>j<i. \<not> prefix sep (drop j s))"
proof (induction s arbitrary: i)
  case Nil
  then show ?case by (simp split: if_splits)
next
  case (Cons c cs)
  show ?case
  proof (cases "prefix sep (c # cs)")
    case True
    with Cons.prems show ?thesis by simp
  next
    case False
    with Cons.prems obtain k where k: "Index cs sep = Some k" "i = Suc k"
      by auto
    from Cons.IH [OF k(1)] False k(2) show ?thesis
      by (auto simp: less_Suc_eq_0_disj)
  qed
qed

lemma Index_first:
  "i \<le> length s \<Longrightarrow> prefix sep (drop i s) \<Longrightarrow> (\<forall>j<i. \<not> prefix sep (drop j s)) \<Longrightarrow>
     Index s sep = Some i"
proof (induction s arbitrary: i)
  case Nil
  then show ?case by simp
next
  case (Cons c cs)
  show ?case
  proof (cases i)
    case 0
    with Cons.prems show ?thesis by simp
  next
    case (Suc k)
    with Cons.prems have "\<not> prefix sep (c # cs)"
      by (metis drop0 zero_less_Suc)
    moreover from Cons.prems Suc have "Index cs sep = Some k"
      by (intro Cons.IH) (auto dest: spec [of _ "Suc _"])
    ultimately show ?thesis using Suc by simp
  qed
qed

lemma Index_None:
  "(\<forall>j\<le>length s. \<not> prefix sep (drop j s)) \<Longrightarrow> Index s sep = None"
proof (induction s)
  case Nil
  then show ?case by simp
next
  case (Cons c cs)
  from Cons.prems have "\<not> prefix sep (c # cs)"
    by (metis drop0 le0)
  moreover from Cons.prems have "\<forall>j\<le>length cs. \<not> prefix sep (drop j cs)"
    by (auto dest: spec [of _ "Suc _"])
  ultimately show ?case using Cons.IH by simp
qed

lemma SplitN2_first:
  assumes "\<forall>j<length a. \<not> prefix sep (drop j (a @ sep @ b))"
  shows "SplitN2 (a @ sep @ b) sep = [a, b]"
proof -
  have "Index (a @ sep @ b) sep = Some (length a)"
    using assms by (intro Index_first) simp_all
  then show ?thesis
    by (simp add: SplitN2_def)
qed

lemma SplitN2_absent:
  "\<forall>j\<le>length s. \<not> prefix sep (drop j s) \<Longrightarrow> SplitN2 s sep = [s]"
  by (simp add: SplitN2_def Index_None)

lemma trim_leading_id: "leading_width encs s = 0 \<Longrightarrow> trim_leading encs s = s"
  by (cases s) (simp_all add: Let_def)

lemma TrimSpace_id:
  "leading_width space_encodings s = 0 \<Longrightarrow> leading_width (map rev space_encodings) (rev s) = 0 \<Longrightarrow>
     TrimSpace s = s"
  by (simp add: TrimSpace_def trim_leading_id)

lemma FetchTrack_tags:
  "streamURL v \<noteq> [] \<Longrightarrow>
     FetchTrack v (ProbeTags tags)
       = (parse_tags tags (track v), v\<lparr>track := parse_tags tags (track v)\<rparr>)"
  by (simp add: FetchTrack_def Let_def)

lemma TrimSpace_A: "TrimSpace ''A'' = ''A''" and TrimSpace_B: "TrimSpace ''B'' = ''B''"
  and TrimSpace_A_space: "TrimSpace ''A '' = ''A''"
  by (simp_all add: TrimSpace_def leading_width_def space_encodings_def Let_def)

text \<open>
  C9, as the code has it. Let the visualizer hold a stream URL and the probe succeed.
  If the tags hold a \<open>StreamTitle\<close> whose first \<open>" - "\<close> has \<open>a\<close> before it and \<open>b\<close> after it,
  the artist is \<open>a\<close> and the title is \<open>b\<close>, each with its leading and trailing white space
  removed, and the raw text is the whole value. If the value has no \<open>" - "\<close>, it is the
  title as it stands and the artist is empty. If there is no \<open>StreamTitle\<close> but an
  \<open>icy-name\<close>, that value is the title and the raw text, and the artist stays what it was.
  The track returned is the track stored.
\<close>

theorem stream_title_parsing:
  assumes "streamURL v \<noteq> []"
  shows "(tags ''StreamTitle'' = Some (a @ '' - '' @ b)
            \<and> (\<forall>j<length a. \<not> prefix '' - '' (drop j (a @ '' - '' @ b)))
          \<longrightarrow> fst (FetchTrack v (ProbeTags tags))
                = \<lparr> Title = TrimSpace b, Artist = TrimSpace a, Raw = a @ '' - '' @ b \<rparr>)
       \<and> (tags ''StreamTitle'' = Some title
            \<and> (\<forall>j\<le>length title. \<not> prefix '' - '' (drop j title))
          \<longrightarrow> fst (FetchTrack v (ProbeTags tags)) = \<lparr> Title = title, Artist = [], Raw = title \<rparr>)
       \<and> (tags ''StreamTitle'' = None \<and> tags ''icy-name'' = Some name
          \<longrightarrow> fst (FetchTrack v (ProbeTags tags)) = (track v)\<lparr>Raw := name, Title := name\<rparr>)
       \<and> snd (FetchTrack v (ProbeTags tags)) = v\<lparr>track := fst (FetchTrack v (ProbeTags tags))\<rparr>"
proof (intro conjI impI)
  assume h: "tags ''StreamTitle'' = Some (a @ '' - '' @ b)
            \<and> (\<forall>j<length a. \<not> prefix '' - '' (drop j (a @ '' - '' @ b)))"
  then have "SplitN2 (a @ '' - '' @ b) '' - '' = [a, b]"
    by (intro SplitN2_first) simp
  with h assms show "fst (FetchTrack v (ProbeTags tags))
                = \<lparr> Title = TrimSpace b, Artist = TrimSpace a, Raw = a @ '' - '' @ b \<rparr>"
    by (simp add: FetchTrack_tags parse_tags_def Let_def)
next
  assume h: "tags ''StreamTitle'' = Some title
            \<and> (\<forall>j\<le>length title. \<not> prefix '' - '' (drop j title))"
  then have "SplitN2 title '' - '' = [title]"
    by (intro SplitN2_absent) simp
  with h assms show "fst (FetchTrack v (ProbeTags tags)) = \<lparr> Title = title, Artist = [], Raw = title \<rparr>"
    by (simp add: FetchTrack_tags parse_tags_def Let_def)
next
  assume "tags ''StreamTitle'' = None \<and> tags ''icy-name'' = Some name"
  with assms show "fst (FetchTrack v (ProbeTags tags)) = (track v)\<lparr>Raw := name, Title := name\<rparr>"
    by (simp add: FetchTrack_tags parse_tags_def)
next
  from assms show "snd (FetchTrack v (ProbeTags tags)) = v\<lparr>track := fst (FetchTrack v (ProbeTags tags))\<rparr>"
    by (simp add: FetchTrack_tags)
qed

theorem stream_title_parsing_witness:
  "fst (FetchTrack url_vis (ProbeTags plain_tags)) = \<lparr> Title = ''B'', Artist = ''A'', Raw = ''A - B'' \<rparr>
   \<and> fst (FetchTrack url_vis (ProbeTags [''StreamTitle'' \<mapsto> ''Live''])) = \<lparr> Title = ''Live'', Artist = [], Raw = ''Live'' \<rparr>
   \<and> fst (FetchTrack url_vis (ProbeTags [''icy-name'' \<mapsto> ''Radio''])) = \<lparr> Title = ''Radio'', Artist = [], Raw = ''Radio'' \<rparr>"
proof -
  have url: "streamURL url_vis \<noteq> []" and tr: "track url_vis = \<lparr> Title = [], Artist = [], Raw = [] \<rparr>"
    by (simp_all add: url_vis_def scenario_started_def)
  have t1: "plain_tags ''StreamTitle'' = Some (''A'' @ '' - '' @ ''B'')
             \<and> (\<forall>j<length ''A''. \<not> prefix '' - '' (drop j (''A'' @ '' - '' @ ''B'')))"
    by (simp add: plain_tags_def)
  have t2: "[''StreamTitle'' \<mapsto> ''Live''] ''StreamTitle'' = Some ''Live''
             \<and> (\<forall>j\<le>length ''Live''. \<not> prefix '' - '' (drop j ''Live''))"
    by (simp add: le_Suc_eq eval_nat_numeral)
  have t3: "[''icy-name'' \<mapsto> ''Radio''] ''StreamTitle'' = None
             \<and> [''icy-name'' \<mapsto> ''Radio''] ''icy-name'' = Some ''Radio''"
    by simp
  from stream_title_parsing [OF url, of plain_tags "''A''" "''B''"] t1
  have 1: "fst (FetchTrack url_vis (ProbeTags plain_tags)) = \<lparr> Title = ''B'', Artist = ''A'', Raw = ''A - B'' \<rparr>"
    by (simp add: TrimSpace_A TrimSpace_B)
  from stream_title_parsing [OF url, of "[''StreamTitle'' \<mapsto> ''Live'']" _ _ "''Live''"] t2
  have 2: "fst (FetchTrack url_vis (ProbeTags [''StreamTitle'' \<mapsto> ''Live''])) = \<lparr> Title = ''Live'', Artist = [], Raw = ''Live'' \<rparr>"
    by blast
  from stream_title_parsing [OF url, of "[''icy-name'' \<mapsto> ''Radio'']" _ _ _ "''Radio''"] t3
  have 3: "fst (FetchTrack url_vis (ProbeTags [''icy-name'' \<mapsto> ''Radio''])) = \<lparr> Title = ''Radio'', Artist = [], Raw = ''Radio'' \<rparr>"
    by (simp add: tr)
  from 1 2 3 show ?thesis by blast
qed

text \<open>
  C9, as stated, fails: in \<open>"A  - B"\<close> the text before the first \<open>" - "\<close> is \<open>"A "\<close>, and the
  artist is \<open>"A"\<close>.
\<close>

theorem artist_is_trimmed:
  "SplitN2 ''A  - B'' '' - '' = [''A '', ''B'']
   \<and> fst (FetchTrack url_vis (ProbeTags spaced_tags)) = \<lparr> Title = ''B'', Artist = ''A'', Raw = ''A  - B'' \<rparr>
   \<and> Artist (fst (FetchTrack url_vis (ProbeTags spaced_tags))) \<noteq> ''A ''"
proof -
  have url: "streamURL url_vis \<noteq> []"
    by (simp add: url_vis_def)
  have sp: "SplitN2 ''A  - B'' '' - '' = [''A '', ''B'']"
    by (simp add: SplitN2_def)
  have "fst (FetchTrack url_vis (ProbeTags spaced_tags)) = \<lparr> Title = ''B'', Artist = ''A'', Raw = ''A  - B'' \<rparr>"
    by (simp add: FetchTrack_tags [OF url] parse_tags_def spaced_tags_def sp TrimSpace_A_space TrimSpace_B Let_def)
  with sp show ?thesis by simp
qed

end
